theory Spec2Isabelle
  imports Main
begin

section \<open>Strings\<close>

text \<open>
  Python strings are modelled as \<open>string\<close>. The operations below are the ones the two
  modules use: \<open>str.startswith\<close>, the substring test \<open>sub in s\<close>, \<open>str.lower\<close> (on
  ASCII letters) and the character class \<open>\w\<close> of the \<open>re\<close> module (its ASCII part:
  letters, digits and the underscore).
\<close>

definition startswith :: "string \<Rightarrow> string \<Rightarrow> bool" where
  "startswith s p = (take (length p) s = p)"

fun contains :: "string \<Rightarrow> string \<Rightarrow> bool" where
  "contains sub [] = (sub = [])"
| "contains sub (c # cs) = (startswith (c # cs) sub \<or> contains sub cs)"

definition lower_char :: "char \<Rightarrow> char" where
  "lower_char c =
     (let n = (of_char c :: nat) in if 65 \<le> n \<and> n \<le> 90 then char_of (n + 32) else c)"

definition lower :: "string \<Rightarrow> string" where
  "lower s = map lower_char s"

definition word_char :: "char \<Rightarrow> bool" where
  "word_char c =
     (let n = (of_char c :: nat) in
        (48 \<le> n \<and> n \<le> 57) \<or> (65 \<le> n \<and> n \<le> 90) \<or> n = 95 \<or> (97 \<le> n \<and> n \<le> 122))"

definition newline :: char where
  "newline = CHR 0x0A"

definition backslash :: char where
  "backslash = CHR 0x5C"

section \<open>Exceptions\<close>

text \<open>
  \<open>KeyError\<close> is what \<open>grab\<close> raises for a protocol that is not registered,
  \<open>ValueError\<close> what \<open>slug_to_url_and_filename\<close> raises for an unknown kind;
  \<open>Exception m\<close> stands for any other exception of a collaborator, \<open>m\<close> its message.
\<close>

datatype exn = KeyError string | ValueError string | Exception string

section \<open>base.py: the protocol registry and grab\<close>

text \<open>
  \<open>protocol_sep_p = re.compile('(\w+)://(.+)')\<close>, used with \<open>match\<close>, which anchors the
  pattern at the start of the key. \<open>\w+\<close> is greedy and no word character is a colon,
  so the first group is the longest prefix of word characters; it must be non-empty
  and followed by \<open>://\<close> and by at least one character that is not a newline (the dot
  does not match a newline). The result is the pair of groups.
\<close>

definition protocol_sep_p_match :: "string \<Rightarrow> (string \<times> string) option" where
  "protocol_sep_p_match key =
     (let w = takeWhile word_char key; r = dropWhile word_char key; rest = drop 3 r in
      if w \<noteq> [] \<and> take 3 r = ''://'' \<and> rest \<noteq> [] \<and> hd rest \<noteq> newline
      then Some (w, takeWhile (\<lambda>c. c \<noteq> newline) rest)
      else None)"

text \<open>
  A handler (an entry of the dictionary \<open>protocols\<close>, or \<open>dol.misc.get_obj\<close>) takes the
  key and the state of the outside world; it returns a value or raises, and leaves a new
  state. \<open>grab\<close> also returns the list of the collaborators it invoked, in order.
\<close>

type_synonym ('w, 'r) handler = "string \<Rightarrow> 'w \<Rightarrow> (exn + 'r) \<times> 'w"

datatype invocation = Handler string string | GetObj string

definition grab ::
  "(string \<rightharpoonup> ('w, 'r) handler) \<Rightarrow> ('w, 'r) handler \<Rightarrow> string \<Rightarrow> 'w
     \<Rightarrow> ((exn + 'r) \<times> 'w) \<times> invocation list" where
  "grab protocols get_obj key0 w =
     (let key = (if startswith key0 ''/'' \<or> startswith key0 [backslash]
                 then ''file://'' @ key0 else key0)
      in if contains ''://'' key
         then (case protocol_sep_p_match key of
                 Some (protocol, ref) \<Rightarrow>
                   (case protocols protocol of
                      None \<Rightarrow> ((Inl (KeyError (''Unrecognized protocol: '' @ protocol)), w), [])
                    | Some protocol_func \<Rightarrow> (protocol_func key w, [Handler protocol key]))
               | None \<Rightarrow> (get_obj key w, [GetObj key]))
         else (get_obj key w, [GetObj key]))"

text \<open>
  The handler registered for \<open>file\<close>. The local file system it reads is a set of
  directories and a map from file paths to their bytes; \<open>Files p\<close> is the lazy mapping
  \<open>dol.Files(p)\<close> of the directory \<open>p\<close>. Opening a path that is no file raises.
\<close>

record localfs =
  dirs :: "string set"
  file_bytes :: "string \<rightharpoonup> string"

datatype content = Bytes string | Files string

definition get_local_file_bytes_or_folder_mapping :: "(localfs, content) handler" where
  "get_local_file_bytes_or_folder_mapping key0 w =
     (let key = (if startswith key0 ''file://'' then drop (length ''file://'') key0 else key0)
      in if key \<in> dirs w then (Inr (Files key), w)
         else (case file_bytes w key of
                 None \<Rightarrow> (Inl (Exception (''No such file or directory: '' @ key)), w)
               | Some b \<Rightarrow> (Inr (Bytes b), w)))"

section \<open>sources/owid.py: the world of the acquirer\<close>

text \<open>
  The file system holds plain files and zip archives; an archive is the list of its
  members, each readable or damaged. \<open>unwritable\<close> are the paths on which
  \<open>open(path, "wb")\<close> raises, \<open>undeletable\<close> those on which \<open>unlink\<close> raises.
  \<open>remote\<close> is whatever state the download capability keeps to itself.
  \<open>calls\<close> is the log of the invocations of the download capability, each with its
  arguments and its outcome: \<open>Inl m\<close> is an exception whose \<open>str\<close> is \<open>m\<close>, \<open>Inr r\<close> the
  value returned (\<open>None\<close> or a path). Paths are strings in the form \<open>pathlib\<close> prints
  them, so \<open>Path(p)\<close> and \<open>str\<close> are the identity.
\<close>

datatype member = Stored string | Damaged

datatype filedata = Plain string | ZipArchive "(string \<times> member) list"

datatype call =
  Call (call_url: string) (call_filepath: string) (call_overwrite: bool)
       (call_outcome: "string + string option")

record 'n world =
  files :: "string \<rightharpoonup> filedata"
  unwritable :: "string set"
  undeletable :: "string set"
  remote :: 'n
  calls :: "call list"

type_synonym 'n downloader =
  "string \<Rightarrow> string \<Rightarrow> bool \<Rightarrow> 'n world \<Rightarrow> (string + string option) \<times> 'n world"

definition exists_path :: "'n world \<Rightarrow> string \<Rightarrow> bool" where
  "exists_path w p = (files w p \<noteq> None)"

text \<open>
  One invocation of the injected capability \<open>graze.base.url_to_file_download\<close> with
  \<open>return_func=return_filepath\<close>: the capability \<open>dl\<close> runs on the world, and the call is
  logged. Whatever \<open>dl\<close> does to the log is discarded.
\<close>

definition url_to_file_download ::
  "'n downloader \<Rightarrow> string \<Rightarrow> string \<Rightarrow> bool \<Rightarrow> 'n world
     \<Rightarrow> (string + string option) \<times> 'n world" where
  "url_to_file_download dl url filepath overwrite w =
     (let (r, w') = dl url filepath overwrite w
      in (r, w'\<lparr>calls := calls w @ [Call url filepath overwrite r]\<rparr>))"

text \<open>Python's truth value of what the capability returned: \<open>None\<close> and \<open>""\<close> are false.\<close>

fun truthy :: "string option \<Rightarrow> bool" where
  "truthy None = False"
| "truthy (Some p) = (p \<noteq> [])"

text \<open>\<open>os.path.join\<close> of two components (posixpath).\<close>

definition os_path_join :: "string \<Rightarrow> string \<Rightarrow> string" where
  "os_path_join a b =
     (if startswith b ''/'' then b
      else if a = [] \<or> last a = CHR ''/'' then a @ b
      else a @ ''/'' @ b)"

definition slug_to_url_and_filename ::
  "string \<Rightarrow> string \<Rightarrow> string \<Rightarrow> exn + (string \<times> string)" where
  "slug_to_url_and_filename slug kind rootdir =
     (let base = ''https://ourworldindata.org/grapher/'' @ slug in
      if kind = ''json''
      then Inr (base @ ''.metadata.json'', os_path_join rootdir (slug @ ''.metadata.json''))
      else if kind = ''csv''
      then Inr (base @ ''.csv'', os_path_join rootdir (slug @ ''.csv''))
      else if kind = ''zip''
      then Inr (base @ ''.zip'', os_path_join rootdir (slug @ ''.zip''))
      else if kind = ''html''
      then Inr (base, os_path_join rootdir (slug @ ''.html''))
      else Inl (ValueError (''Unknown kind: '' @ kind
                  @ '' (should be 'json', 'csv', 'zip', or 'html')'')))"

definition is_forbidden_error :: "string \<Rightarrow> bool" where
  "is_forbidden_error msg = (contains ''403'' msg \<or> contains ''Forbidden'' msg)"

definition is_non_redistributable :: "string \<Rightarrow> bool" where
  "is_non_redistributable err =
     (let msg = lower err
      in contains ''non-redistributable'' msg \<or> contains ''not allowed to re-share'' msg)"

section \<open>sources/owid.py: the archive fallback\<close>

text \<open>\<open>zipfile.ZipFile(path, 'r')\<close>: the member table of the archive, or an exception.\<close>

definition ZipFile :: "'n world \<Rightarrow> string \<Rightarrow> (string \<rightharpoonup> member) option" where
  "ZipFile w p =
     (case files w p of
        Some (ZipArchive ms) \<Rightarrow> Some (map_of ms)
      | _ \<Rightarrow> None)"

text \<open>
  \<open>with zf.open(member) as fsrc, open(dst, "wb") as fdst: fdst.write(fsrc.read())\<close>
  inside its \<open>try\<close>: \<open>zf.open\<close> raises for a missing member before \<open>dst\<close> is touched;
  \<open>open(dst, "wb")\<close> raises on an unwritable path, and otherwise creates or truncates
  \<open>dst\<close>; reading a damaged member raises and leaves \<open>dst\<close> empty. The boolean tells
  whether the assignment after the \<open>with\<close> block was reached. (The \<open>print\<close> that follows
  it in the source raises \<open>AttributeError\<close>, the path being a \<open>str\<close>; the same \<open>except\<close>
  swallows it, after the assignment.)
\<close>

definition extract_member ::
  "(string \<rightharpoonup> member) \<Rightarrow> string \<Rightarrow> string \<Rightarrow> 'n world \<Rightarrow> bool \<times> 'n world" where
  "extract_member zf name dst w =
     (case zf name of
        None \<Rightarrow> (False, w)
      | Some m \<Rightarrow>
          if dst \<in> unwritable w then (False, w)
          else (case m of
                  Damaged \<Rightarrow> (False, w\<lparr>files := (files w)(dst \<mapsto> Plain [])\<rparr>)
                | Stored b \<Rightarrow> (True, w\<lparr>files := (files w)(dst \<mapsto> Plain b)\<rparr>)))"

text \<open>\<open>Path.unlink\<close>: \<open>None\<close> when it raises.\<close>

definition unlink :: "string \<Rightarrow> 'n world \<Rightarrow> 'n world option" where
  "unlink p w =
     (if p \<in> undeletable w \<or> files w p = None then None
      else Some (w\<lparr>files := (files w)(p := None)\<rparr>))"

text \<open>
  The extraction phase of \<open>_download_from_zip\<close>, from \<open>csv_ok, json_ok = None, None\<close>
  to the \<open>return\<close>. Its \<open>try\<close> block opens the archive and extracts the two members,
  each in a \<open>try\<close> of its own; an archive that cannot be read extracts nothing.
\<close>

definition extract_members ::
  "string \<Rightarrow> string \<Rightarrow> string \<Rightarrow> string \<Rightarrow> 'n world
     \<Rightarrow> (string option \<times> string option) \<times> 'n world" where
  "extract_members slug csv_path json_path zip_file_path w =
     (case ZipFile w zip_file_path of
        None \<Rightarrow> ((None, None), w)
      | Some zf \<Rightarrow>
          (let (c, wa) = extract_member zf (slug @ ''.csv'') csv_path w;
               (j, wb) = extract_member zf (slug @ ''.metadata.json'') json_path wa
           in ((if c then Some csv_path else None, if j then Some json_path else None), wb)))"

text \<open>
  Its \<open>finally\<close> block: unlink the zip file if it exists; an exception of \<open>unlink\<close> is
  swallowed.
\<close>

definition unlink_quietly :: "string \<Rightarrow> 'n world \<Rightarrow> 'n world" where
  "unlink_quietly zip_file_path w =
     (if exists_path w zip_file_path
      then (case unlink zip_file_path w of None \<Rightarrow> w | Some w' \<Rightarrow> w')
      else w)"

definition extract_from_zip ::
  "string \<Rightarrow> string \<Rightarrow> string \<Rightarrow> string \<Rightarrow> 'n world
     \<Rightarrow> (string option \<times> string option) \<times> 'n world" where
  "extract_from_zip slug csv_path json_path zip_file_path w =
     (let (oks, w1) = extract_members slug csv_path json_path zip_file_path w
      in (oks, unlink_quietly zip_file_path w1))"

text \<open>
  \<open>_download_from_zip\<close>, a closure over \<open>refresh\<close> and the set \<open>attempted_zip\<close>, which
  is threaded through here. It returns \<open>(csv_ok, json_ok)\<close>.
\<close>

definition download_from_zip ::
  "'n downloader \<Rightarrow> string \<Rightarrow> bool \<Rightarrow> string \<Rightarrow> string \<Rightarrow> string
     \<Rightarrow> string set \<Rightarrow> 'n world
     \<Rightarrow> exn + ((string option \<times> string option) \<times> string set \<times> 'n world)" where
  "download_from_zip dl rootdir refresh slug csv_path json_path attempted_zip w =
     (case slug_to_url_and_filename slug ''zip'' rootdir of
        Inl e \<Rightarrow> Inl e
      | Inr (zip_url, tmp_zip_path) \<Rightarrow>
          if slug \<in> attempted_zip \<and> \<not> refresh then Inr ((None, None), attempted_zip, w)
          else
            (let attempted = insert slug attempted_zip in
             case url_to_file_download dl zip_url tmp_zip_path refresh w of
               (Inl e, w1) \<Rightarrow> Inr ((None, None), attempted, w1)
             | (Inr zip_ret, w1) \<Rightarrow>
                 if \<not> truthy zip_ret then Inr ((None, None), attempted, w1)
                 else if \<not> exists_path w1 (the zip_ret) then Inr ((None, None), attempted, w1)
                 else (let (oks, w2) = extract_from_zip slug csv_path json_path (the zip_ret) w1
                       in Inr (oks, attempted, w2))))"

section \<open>sources/owid.py: acquire_owid_data\<close>

text \<open>
  The part of \<open>acquire_owid_data\<close> under the comment \<open>CSV\<close>. It yields \<open>csv_file\<close> and
  the local variable \<open>json_file_from_zip\<close>: \<open>None\<close> where the source leaves it unbound,
  \<open>Some v\<close> where it binds it to \<open>v\<close>.
\<close>

definition csv_section ::
  "'n downloader \<Rightarrow> string \<Rightarrow> bool \<Rightarrow> string \<Rightarrow> string \<Rightarrow> string \<Rightarrow> string
     \<Rightarrow> string set \<Rightarrow> 'n world
     \<Rightarrow> exn + (string option \<times> string option option \<times> string set \<times> 'n world)" where
  "csv_section dl rootdir refresh slug csv_url csv_path json_path attempted_zip w =
     (if exists_path w csv_path \<and> \<not> refresh then Inr (Some csv_path, None, attempted_zip, w)
      else
        (case url_to_file_download dl csv_url csv_path refresh w of
           (Inr csv_ret, w1) \<Rightarrow>
             Inr (if truthy csv_ret \<and> exists_path w1 (the csv_ret) then csv_ret else None,
                  None, attempted_zip, w1)
         | (Inl e, w1) \<Rightarrow>
             if is_non_redistributable e then Inr (None, None, attempted_zip, w1)
             else if is_forbidden_error e then
               (if slug \<notin> attempted_zip then
                  (case download_from_zip dl rootdir refresh slug csv_path json_path
                          attempted_zip w1 of
                     Inl x \<Rightarrow> Inl x
                   | Inr ((csv_file, json_file_from_zip), attempted, w2) \<Rightarrow>
                       Inr (csv_file, Some json_file_from_zip, attempted, w2))
                else Inr (None, Some None, attempted_zip, w1))
             else Inr (None, Some None, attempted_zip, w1)))"

text \<open>
  The part under the comment \<open>JSON metadata\<close>. Reading the chart title of a freshly
  downloaded file happens in a \<open>try\<close> whose \<open>except\<close> passes, and changes nothing.
\<close>

definition json_section ::
  "'n downloader \<Rightarrow> string \<Rightarrow> bool \<Rightarrow> string \<Rightarrow> string \<Rightarrow> string \<Rightarrow> string
     \<Rightarrow> string option option \<Rightarrow> string set \<Rightarrow> 'n world
     \<Rightarrow> exn + (string option \<times> string set \<times> 'n world)" where
  "json_section dl rootdir refresh slug json_url csv_path json_path json_file_from_zip
       attempted_zip w =
     (if exists_path w json_path \<and> \<not> refresh then Inr (Some json_path, attempted_zip, w)
      else if (case json_file_from_zip of None \<Rightarrow> False | Some v \<Rightarrow> truthy v)
      then Inr (the json_file_from_zip, attempted_zip, w)
      else
        (case url_to_file_download dl json_url json_path refresh w of
           (Inr json_ret, w1) \<Rightarrow>
             Inr (if truthy json_ret \<and> exists_path w1 (the json_ret) then json_ret else None,
                  attempted_zip, w1)
         | (Inl e, w1) \<Rightarrow>
             if is_non_redistributable e then Inr (None, attempted_zip, w1)
             else if is_forbidden_error e \<and> slug \<notin> attempted_zip then
               (case download_from_zip dl rootdir refresh slug csv_path json_path
                       attempted_zip w1 of
                  Inl x \<Rightarrow> Inl x
                | Inr ((_, json_file_zip), attempted, w2) \<Rightarrow> Inr (json_file_zip, attempted, w2))
             else Inr (None, attempted_zip, w1)))"

text \<open>
  \<open>acquire_owid_data(slug, refresh=...)\<close>, with the download capability and the
  downloads directory as parameters. It returns \<open>(json_file, csv_file)\<close> and the world
  it leaves.
\<close>

definition acquire_owid_data ::
  "'n downloader \<Rightarrow> string \<Rightarrow> string \<Rightarrow> bool \<Rightarrow> 'n world
     \<Rightarrow> exn + ((string option \<times> string option) \<times> 'n world)" where
  "acquire_owid_data dl rootdir slug refresh w =
     (case slug_to_url_and_filename slug ''json'' rootdir of
        Inl e \<Rightarrow> Inl e
      | Inr (json_url, json_path) \<Rightarrow>
     (case slug_to_url_and_filename slug ''csv'' rootdir of
        Inl e \<Rightarrow> Inl e
      | Inr (csv_url, csv_path) \<Rightarrow>
     (case csv_section dl rootdir refresh slug csv_url csv_path json_path {} w of
        Inl e \<Rightarrow> Inl e
      | Inr (csv_file, json_file_from_zip, attempted, w1) \<Rightarrow>
     (case json_section dl rootdir refresh slug json_url csv_path json_path
             json_file_from_zip attempted w1 of
        Inl e \<Rightarrow> Inl e
      | Inr (json_file, attempted', w2) \<Rightarrow> Inr ((json_file, csv_file), w2)))))"

section \<open>Example collaborators\<close>

text \<open>
  A registry like the one \<open>base.py\<close> builds when \<open>graze\<close> is installed, with a stand-in
  for \<open>graze\<close> and one for \<open>get_obj\<close>, and a small local file system.
\<close>

definition example_graze :: "(localfs, content) handler" where
  "example_graze key w = (Inr (Bytes (''contents of '' @ key)), w)"

definition example_get_obj :: "(localfs, content) handler" where
  "example_get_obj key w = (Inl (Exception (''no object named '' @ key)), w)"

definition example_protocols :: "string \<rightharpoonup> (localfs, content) handler" where
  "example_protocols =
     [''file'' \<mapsto> get_local_file_bytes_or_folder_mapping,
      ''http'' \<mapsto> example_graze,
      ''https'' \<mapsto> example_graze]"

definition example_fs :: localfs where
  "example_fs = \<lparr>dirs = {''/tmp''}, file_bytes = [''/tmp/a.txt'' \<mapsto> ''hello'']\<rparr>"

text \<open>
  Download capabilities for the examples, on a world whose capability keeps no state:
  one that answers 403 to every URL but the archive's, which it stores as an archive of
  the given members; one that raises the given message for every URL; one that stores
  a file for every URL.
\<close>

definition empty_world :: "unit world" where
  "empty_world =
     \<lparr>files = Map.empty, unwritable = {}, undeletable = {}, remote = (), calls = []\<rparr>"

definition serve_archive_only :: "string \<Rightarrow> (string \<times> member) list \<Rightarrow> unit downloader" where
  "serve_archive_only zip_url ms url filepath overwrite w =
     (if url = zip_url
      then (Inr (Some filepath), w\<lparr>files := (files w)(filepath \<mapsto> ZipArchive ms)\<rparr>)
      else (Inl ''HTTP Error 403: Forbidden'', w))"

definition refuse_all :: "string \<Rightarrow> unit downloader" where
  "refuse_all msg url filepath overwrite w = (Inl msg, w)"

definition serve_all :: "unit downloader" where
  "serve_all url filepath overwrite w =
     (Inr (Some filepath), w\<lparr>files := (files w)(filepath \<mapsto> Plain ''data'')\<rparr>)"

definition world_with :: "(string \<times> filedata) list \<Rightarrow> string set \<Rightarrow> unit world" where
  "world_with fs locked = empty_world\<lparr>files := map_of fs, undeletable := locked\<rparr>"

section \<open>Properties of grab\<close>









lemmas grab_eval =
  Let_def grab_def startswith_def backslash_def newline_def protocol_sep_p_match_def
  word_char_def example_protocols_def example_graze_def example_get_obj_def example_fs_def
  get_local_file_bytes_or_folder_mapping_def







text \<open>
  C7: for a key that begins with a path separator (a slash or a backslash), \<open>grab\<close>
  is \<open>grab\<close> of \<open>file://\<close> followed by the key: the same result or exception, the same
  world, the same collaborator invoked with the same argument.
\<close>

theorem grab_leading_separator:
  assumes "startswith key ''/'' \<or> startswith key [backslash]"
  shows "grab protocols get_obj key w = grab protocols get_obj (''file://'' @ key) w"
  using assms unfolding grab_def by (simp add: startswith_def backslash_def)

theorem grab_leading_separator_witness:
  "grab example_protocols example_get_obj ''/tmp/a.txt'' example_fs
     = grab example_protocols example_get_obj ''file:///tmp/a.txt'' example_fs
   \<and> grab example_protocols example_get_obj ''/tmp/a.txt'' example_fs
     = ((Inr (Bytes ''hello''), example_fs), [Handler ''file'' ''file:///tmp/a.txt''])
   \<and> startswith ''/tmp/a.txt'' ''/''"
proof -
  have h: "startswith ''/tmp/a.txt'' ''/'' \<or> startswith ''/tmp/a.txt'' [backslash]"
    by (simp add: startswith_def)
  have v: "grab example_protocols example_get_obj ''file:///tmp/a.txt'' example_fs
             = ((Inr (Bytes ''hello''), example_fs), [Handler ''file'' ''file:///tmp/a.txt''])"
    by (simp add: grab_eval)
  show ?thesis
    using grab_leading_separator[OF h, of example_protocols example_get_obj example_fs] v
    by (simp add: startswith_def)
qed




section \<open>Properties of the acquirer\<close>

lemma names_json:
  "slug_to_url_and_filename slug ''json'' rootdir
     = Inr (''https://ourworldindata.org/grapher/'' @ slug @ ''.metadata.json'',
            os_path_join rootdir (slug @ ''.metadata.json''))"
  by (simp add: slug_to_url_and_filename_def)

lemma names_csv:
  "slug_to_url_and_filename slug ''csv'' rootdir
     = Inr (''https://ourworldindata.org/grapher/'' @ slug @ ''.csv'',
            os_path_join rootdir (slug @ ''.csv''))"
  by (simp add: slug_to_url_and_filename_def)

lemma names_zip:
  "slug_to_url_and_filename slug ''zip'' rootdir
     = Inr (''https://ourworldindata.org/grapher/'' @ slug @ ''.zip'',
            os_path_join rootdir (slug @ ''.zip''))"
  by (simp add: slug_to_url_and_filename_def)

lemma download_logged:
  assumes "url_to_file_download dl u p ov w = (r, w1)"
  shows "calls w1 = calls w @ [Call u p ov r]"
  using assms by (auto simp: url_to_file_download_def split: prod.splits)

lemma extract_member_frame:
  assumes "extract_member zf name dst w = (ok, w1)"
  shows "calls w1 = calls w" and "undeletable w1 = undeletable w"
    and "unwritable w1 = unwritable w" and "remote w1 = remote w"
    and "exists_path w p \<Longrightarrow> exists_path w1 p"
  using assms
  by (auto simp: extract_member_def exists_path_def split: option.splits if_splits member.splits)

lemma extract_members_frame:
  assumes "extract_members slug cp jp zp w = ((c, j), w1)"
  shows "calls w1 = calls w" and "undeletable w1 = undeletable w"
    and "c = None \<or> c = Some cp" and "j = None \<or> j = Some jp"
    and "exists_path w p \<Longrightarrow> exists_path w1 p"
proof -
  have all: "calls w1 = calls w \<and> undeletable w1 = undeletable w
      \<and> (c = None \<or> c = Some cp) \<and> (j = None \<or> j = Some jp)
      \<and> (exists_path w p \<longrightarrow> exists_path w1 p)"
  proof (cases "ZipFile w zp")
    case None
    with assms show ?thesis by (simp add: extract_members_def)
  next
    case (Some zf)
    obtain c0 wa where a: "extract_member zf (slug @ ''.csv'') cp w = (c0, wa)"
      by (cases "extract_member zf (slug @ ''.csv'') cp w")
    obtain j0 wb where b: "extract_member zf (slug @ ''.metadata.json'') jp wa = (j0, wb)"
      by (cases "extract_member zf (slug @ ''.metadata.json'') jp wa")
    from assms Some a b have r: "c = (if c0 then Some cp else None)" "j = (if j0 then Some jp else None)" "w1 = wb"
      by (simp_all add: extract_members_def)
    show ?thesis
      using r extract_member_frame[OF a] extract_member_frame[OF b] by simp
  qed
  then show "calls w1 = calls w" and "undeletable w1 = undeletable w"
    and "c = None \<or> c = Some cp" and "j = None \<or> j = Some jp"
    and "exists_path w p \<Longrightarrow> exists_path w1 p"
    by simp_all
qed

lemma unlink_quietly_frame:
  shows "calls (unlink_quietly zp w) = calls w"
    and "undeletable (unlink_quietly zp w) = undeletable w"
    and "\<not> exists_path (unlink_quietly zp w) zp \<or> zp \<in> undeletable w"
    and "p \<noteq> zp \<Longrightarrow> exists_path (unlink_quietly zp w) p = exists_path w p"
  by (auto simp: unlink_quietly_def unlink_def exists_path_def)

lemma extract_from_zip_frame:
  assumes "extract_from_zip slug cp jp zp w = ((c, j), w1)"
  shows "calls w1 = calls w" and "undeletable w1 = undeletable w"
    and "c = None \<or> c = Some cp" and "j = None \<or> j = Some jp"
    and "\<not> exists_path w1 zp \<or> zp \<in> undeletable w"
    and "p \<noteq> zp \<Longrightarrow> exists_path w p \<Longrightarrow> exists_path w1 p"
proof -
  obtain wm where m: "extract_members slug cp jp zp w = ((c, j), wm)"
    and w1: "w1 = unlink_quietly zp wm"
    using assms by (auto simp: extract_from_zip_def split: prod.splits)
  show "calls w1 = calls w" and "undeletable w1 = undeletable w"
    and "c = None \<or> c = Some cp" and "j = None \<or> j = Some jp"
    using extract_members_frame(1-4)[OF m] w1 by (simp_all add: unlink_quietly_frame(1,2))
  show "\<not> exists_path w1 zp \<or> zp \<in> undeletable w"
    using unlink_quietly_frame(3)[of zp wm] extract_members_frame(2)[OF m] w1 by simp
  show "p \<noteq> zp \<Longrightarrow> exists_path w p \<Longrightarrow> exists_path w1 p"
    using unlink_quietly_frame(4)[of p zp wm] extract_members_frame(5)[OF m, of p] w1 by simp
qed

lemma download_from_zip_returns:
  "\<exists>oks az' w'. download_from_zip dl rootdir refresh slug cp jp az w = Inr (oks, az', w')"
  by (auto simp: download_from_zip_def names_zip Let_def split: prod.splits sum.splits)

lemma download_from_zip_skipped:
  assumes "slug \<in> az" and "\<not> refresh"
  shows "download_from_zip dl rootdir refresh slug cp jp az w = Inr ((None, None), az, w)"
  using assms by (simp add: download_from_zip_def names_zip)

lemma download_from_zip_fresh:
  assumes run: "download_from_zip dl rootdir refresh slug cp jp az w = Inr ((c, j), az', w')"
    and names: "slug_to_url_and_filename slug ''zip'' rootdir = Inr (zu, zp)"
    and fresh: "slug \<notin> az \<or> refresh"
  shows "\<exists>r. calls w' = calls w @ [Call zu zp refresh r]
            \<and> az' = insert slug az
            \<and> (c = None \<or> c = Some cp \<and> (\<exists>p. r = Inr (Some p)))
            \<and> (j = None \<or> j = Some jp \<and> (\<exists>p. r = Inr (Some p)))"
proof -
  obtain r w1 where d: "url_to_file_download dl zu zp refresh w = (r, w1)"
    by (cases "url_to_file_download dl zu zp refresh w")
  note l = download_logged[OF d]
  show ?thesis
  proof (cases r)
    case (Inl e)
    with run names fresh d l show ?thesis
      by (auto simp: download_from_zip_def Let_def split: if_splits)
  next
    case (Inr v)
    show ?thesis
    proof (cases "truthy v \<and> exists_path w1 (the v)")
      case False
      with run names fresh d l Inr show ?thesis
        by (auto simp: download_from_zip_def Let_def split: if_splits)
    next
      case True
      then obtain q where v: "v = Some q"
        by (cases v) auto
      obtain c0 j0 w2 where x: "extract_from_zip slug cp jp (the v) w1 = ((c0, j0), w2)"
        by (cases "extract_from_zip slug cp jp (the v) w1") auto
      from run names fresh d Inr True x
      have res: "c = c0" "j = j0" "az' = insert slug az" "w' = w2"
        by (auto simp: download_from_zip_def Let_def split: if_splits)
      show ?thesis
        using res extract_from_zip_frame(1,3,4)[OF x] l Inr v by auto
    qed
  qed
qed


lemma download_from_zip_not_Inl [simp]:
  "download_from_zip dl rootdir refresh slug cp jp az w \<noteq> Inl x"
  using download_from_zip_returns[of dl rootdir refresh slug cp jp az w] by auto

lemma urls_distinct:
  assumes "slug_to_url_and_filename slug ''json'' rootdir = Inr (ju, jp)"
    and "slug_to_url_and_filename slug ''csv'' rootdir = Inr (cu, cp)"
    and "slug_to_url_and_filename slug ''zip'' rootdir = Inr (zu, zp)"
  shows "cu \<noteq> zu" and "ju \<noteq> zu" and "cu \<noteq> ju"
  using assms by (auto simp: slug_to_url_and_filename_def)

lemma csv_section_shape:
  assumes run: "csv_section dl rootdir refresh slug cu cp jp {} w = Inr (cf, jfz, az, w1)"
    and names: "slug_to_url_and_filename slug ''zip'' rootdir = Inr (zu, zp)"
  shows "(exists_path w cp \<and> \<not> refresh \<and> cf = Some cp \<and> jfz = None \<and> az = {} \<and> w1 = w)
       \<or> (\<exists>v. \<not> (exists_path w cp \<and> \<not> refresh)
             \<and> calls w1 = calls w @ [Call cu cp refresh (Inr v)]
             \<and> cf = (if truthy v \<and> exists_path w1 (the v) then v else None)
             \<and> jfz = None \<and> az = {})
       \<or> (\<exists>e. \<not> (exists_path w cp \<and> \<not> refresh)
             \<and> calls w1 = calls w @ [Call cu cp refresh (Inl e)]
             \<and> (is_non_redistributable e \<or> \<not> is_forbidden_error e)
             \<and> cf = None \<and> (jfz = None \<or> jfz = Some None) \<and> az = {})
       \<or> (\<exists>e r j. \<not> (exists_path w cp \<and> \<not> refresh)
             \<and> calls w1 = calls w @ [Call cu cp refresh (Inl e), Call zu zp refresh r]
             \<and> is_forbidden_error e \<and> \<not> is_non_redistributable e
             \<and> (cf = None \<or> cf = Some cp \<and> (\<exists>p. r = Inr (Some p)))
             \<and> (j = None \<or> j = Some jp \<and> (\<exists>p. r = Inr (Some p)))
             \<and> jfz = Some j \<and> az = {slug})"
proof (cases "exists_path w cp \<and> \<not> refresh")
  case True
  with run show ?thesis
    by (simp add: csv_section_def)
next
  case False
  obtain r0 wd where d: "url_to_file_download dl cu cp refresh w = (r0, wd)"
    by (cases "url_to_file_download dl cu cp refresh w")
  note l = download_logged[OF d]
  show ?thesis
  proof (cases r0)
    case (Inr v)
    with run False d
    have res: "cf = (if truthy v \<and> exists_path wd (the v) then v else None)"
        "jfz = None" "az = {}" "w1 = wd"
      by (auto simp: csv_section_def)
    have "\<not> (exists_path w cp \<and> \<not> refresh)
             \<and> calls w1 = calls w @ [Call cu cp refresh (Inr v)]
             \<and> cf = (if truthy v \<and> exists_path w1 (the v) then v else None)
             \<and> jfz = None \<and> az = {}"
      using False res l Inr by simp
    then show ?thesis by blast
  next
    case (Inl e)
    show ?thesis
    proof (cases "is_forbidden_error e \<and> \<not> is_non_redistributable e")
      case no: False
      with run False d Inl
      have res: "cf = None" "jfz = None \<or> jfz = Some None" "az = {}" "w1 = wd"
        by (auto simp: csv_section_def split: if_splits)
      have "\<not> (exists_path w cp \<and> \<not> refresh)
             \<and> calls w1 = calls w @ [Call cu cp refresh (Inl e)]
             \<and> (is_non_redistributable e \<or> \<not> is_forbidden_error e)
             \<and> cf = None \<and> (jfz = None \<or> jfz = Some None) \<and> az = {}"
        using False res l Inl no by auto
      then show ?thesis by blast
    next
      case yes: True
      obtain c0 j0 az0 w2 where z:
        "download_from_zip dl rootdir refresh slug cp jp {} wd = Inr ((c0, j0), az0, w2)"
        using download_from_zip_returns[of dl rootdir refresh slug cp jp "{}" wd] by auto
      from run False d Inl yes z
      have res: "cf = c0" "jfz = Some j0" "az = az0" "w1 = w2"
        by (auto simp: csv_section_def)
      from download_from_zip_fresh[OF z names] obtain r where
        f: "calls w2 = calls wd @ [Call zu zp refresh r]" "az0 = {slug}"
           "c0 = None \<or> c0 = Some cp \<and> (\<exists>p. r = Inr (Some p))"
           "j0 = None \<or> j0 = Some jp \<and> (\<exists>p. r = Inr (Some p))"
        by auto
      have "\<not> (exists_path w cp \<and> \<not> refresh)
             \<and> calls w1 = calls w @ [Call cu cp refresh (Inl e), Call zu zp refresh r]
             \<and> is_forbidden_error e \<and> \<not> is_non_redistributable e
             \<and> (cf = None \<or> cf = Some cp \<and> (\<exists>p. r = Inr (Some p)))
             \<and> (j0 = None \<or> j0 = Some jp \<and> (\<exists>p. r = Inr (Some p)))
             \<and> jfz = Some j0 \<and> az = {slug}"
        using False res f l Inl yes by simp
      then show ?thesis by blast
    qed
  qed
qed

lemma json_section_shape:
  assumes run: "json_section dl rootdir refresh slug ju cp jp jfz az w = Inr (jf, az', w1)"
    and names: "slug_to_url_and_filename slug ''zip'' rootdir = Inr (zu, zp)"
  shows "(exists_path w jp \<and> \<not> refresh \<and> jf = Some jp \<and> w1 = w)
       \<or> (\<exists>q. \<not> (exists_path w jp \<and> \<not> refresh)
             \<and> jfz = Some (Some q) \<and> q \<noteq> [] \<and> jf = Some q \<and> w1 = w)
       \<or> (\<exists>v. \<not> (exists_path w jp \<and> \<not> refresh)
             \<and> calls w1 = calls w @ [Call ju jp refresh (Inr v)]
             \<and> jf = (if truthy v \<and> exists_path w1 (the v) then v else None))
       \<or> (\<exists>e. \<not> (exists_path w jp \<and> \<not> refresh)
             \<and> calls w1 = calls w @ [Call ju jp refresh (Inl e)]
             \<and> (is_non_redistributable e \<or> \<not> is_forbidden_error e \<or> slug \<in> az)
             \<and> jf = None)
       \<or> (\<exists>e r. \<not> (exists_path w jp \<and> \<not> refresh)
             \<and> calls w1 = calls w @ [Call ju jp refresh (Inl e), Call zu zp refresh r]
             \<and> is_forbidden_error e \<and> \<not> is_non_redistributable e \<and> slug \<notin> az
             \<and> (jf = None \<or> jf = Some jp \<and> (\<exists>p. r = Inr (Some p))))"
proof (cases "exists_path w jp \<and> \<not> refresh")
  case True
  with run show ?thesis
    by (simp add: json_section_def)
next
  case False
  show ?thesis
  proof (cases "case jfz of None \<Rightarrow> False | Some v \<Rightarrow> truthy v")
    case fz: True
    then obtain q where q: "jfz = Some (Some q)" "q \<noteq> []"
      by (cases jfz; cases "the jfz") auto
    with run False
    have "\<not> (exists_path w jp \<and> \<not> refresh)
             \<and> jfz = Some (Some q) \<and> q \<noteq> [] \<and> jf = Some q \<and> w1 = w"
      by (auto simp: json_section_def)
    then show ?thesis by blast
  next
    case nz: False
    obtain r0 wd where d: "url_to_file_download dl ju jp refresh w = (r0, wd)"
      by (cases "url_to_file_download dl ju jp refresh w")
    note l = download_logged[OF d]
    show ?thesis
    proof (cases r0)
      case (Inr v)
      with run False nz d
      have res: "jf = (if truthy v \<and> exists_path wd (the v) then v else None)" "w1 = wd"
        by (auto simp: json_section_def)
      have "\<not> (exists_path w jp \<and> \<not> refresh)
             \<and> calls w1 = calls w @ [Call ju jp refresh (Inr v)]
             \<and> jf = (if truthy v \<and> exists_path w1 (the v) then v else None)"
        using False res l Inr by simp
      then show ?thesis by blast
    next
      case (Inl e)
      show ?thesis
      proof (cases "\<not> is_non_redistributable e \<and> is_forbidden_error e \<and> slug \<notin> az")
        case no: False
        with run False nz d Inl
        have res: "jf = None" "w1 = wd"
          by (auto simp: json_section_def split: if_splits)
        have "\<not> (exists_path w jp \<and> \<not> refresh)
             \<and> calls w1 = calls w @ [Call ju jp refresh (Inl e)]
             \<and> (is_non_redistributable e \<or> \<not> is_forbidden_error e \<or> slug \<in> az)
             \<and> jf = None"
          using False res l Inl no by auto
        then show ?thesis by blast
      next
        case yes: True
        obtain c0 j0 az0 w2 where z:
          "download_from_zip dl rootdir refresh slug cp jp az wd = Inr ((c0, j0), az0, w2)"
          using download_from_zip_returns[of dl rootdir refresh slug cp jp az wd] by auto
        from run False nz d Inl yes z
        have res: "jf = j0" "w1 = w2"
          by (auto simp: json_section_def)
        from download_from_zip_fresh[OF z names] yes obtain r where
          f: "calls w2 = calls wd @ [Call zu zp refresh r]"
             "j0 = None \<or> j0 = Some jp \<and> (\<exists>p. r = Inr (Some p))"
          by auto
        have "\<not> (exists_path w jp \<and> \<not> refresh)
             \<and> calls w1 = calls w @ [Call ju jp refresh (Inl e), Call zu zp refresh r]
             \<and> is_forbidden_error e \<and> \<not> is_non_redistributable e \<and> slug \<notin> az
             \<and> (jf = None \<or> jf = Some jp \<and> (\<exists>p. r = Inr (Some p)))"
          using False res f l Inl yes by simp
        then show ?thesis by blast
      qed
    qed
  qed
qed

lemma acquire_sections:
  assumes run: "acquire_owid_data dl rootdir slug refresh w = Inr ((jf, cf), w')"
    and nj: "slug_to_url_and_filename slug ''json'' rootdir = Inr (ju, jp)"
    and nc: "slug_to_url_and_filename slug ''csv'' rootdir = Inr (cu, cp)"
  shows "\<exists>jfz az az' w1.
           csv_section dl rootdir refresh slug cu cp jp {} w = Inr (cf, jfz, az, w1)
         \<and> json_section dl rootdir refresh slug ju cp jp jfz az w1 = Inr (jf, az', w')"
  using run nj nc
  by (auto simp: acquire_owid_data_def split: sum.splits prod.splits)

lemma os_path_join_eq:
  assumes "os_path_join a b = os_path_join a b'"
    and "startswith b ''/'' = startswith b' ''/''"
  shows "b = b'"
  using assms by (auto simp: os_path_join_def split: if_splits)

lemma startswith_suffix:
  assumes "x \<noteq> []" and "y \<noteq> []" and "hd x \<noteq> CHR ''/''" and "hd y \<noteq> CHR ''/''"
  shows "startswith (s @ x) ''/'' = startswith (s @ y) ''/''"
  using assms by (cases s; cases x; cases y) (simp_all add: startswith_def)

lemma paths_distinct:
  assumes nj: "slug_to_url_and_filename slug ''json'' rootdir = Inr (ju, jp)"
    and nc: "slug_to_url_and_filename slug ''csv'' rootdir = Inr (cu, cp)"
    and nz: "slug_to_url_and_filename slug ''zip'' rootdir = Inr (zu, zp)"
  shows "zp \<noteq> jp" and "zp \<noteq> cp" and "cp \<noteq> jp"
proof -
  have j: "jp = os_path_join rootdir (slug @ ''.metadata.json'')"
    using nj unfolding names_json by simp
  have c: "cp = os_path_join rootdir (slug @ ''.csv'')"
    using nc unfolding names_csv by simp
  have z: "zp = os_path_join rootdir (slug @ ''.zip'')"
    using nz unfolding names_zip by simp
  have s1: "startswith (slug @ ''.zip'') ''/'' = startswith (slug @ ''.metadata.json'') ''/''"
    by (rule startswith_suffix) simp_all
  have s2: "startswith (slug @ ''.zip'') ''/'' = startswith (slug @ ''.csv'') ''/''"
    by (rule startswith_suffix) simp_all
  have s3: "startswith (slug @ ''.csv'') ''/'' = startswith (slug @ ''.metadata.json'') ''/''"
    by (rule startswith_suffix) simp_all
  show "zp \<noteq> jp"
    using os_path_join_eq[OF _ s1, of rootdir] j z by auto
  show "zp \<noteq> cp"
    using os_path_join_eq[OF _ s2, of rootdir] c z by auto
  show "cp \<noteq> jp"
    using os_path_join_eq[OF _ s3, of rootdir] c j by auto
qed

lemma download_keeps:
  assumes wb: "\<forall>u p ov x r x'. dl u p ov x = (r, x')
                 \<longrightarrow> (exists_path x fp \<longrightarrow> exists_path x' fp) \<and> (\<forall>q. r = Inr (Some q) \<longrightarrow> q = p)"
    and d: "url_to_file_download dl u p ov x = (r, x1)"
  shows "exists_path x fp \<Longrightarrow> exists_path x1 fp" and "r = Inr (Some q) \<Longrightarrow> q = p"
proof -
  obtain r0 x0 where e: "dl u p ov x = (r0, x0)"
    by (cases "dl u p ov x")
  with d have r: "r = r0" "x1 = x0\<lparr>calls := calls x @ [Call u p ov r0]\<rparr>"
    by (auto simp: url_to_file_download_def)
  from wb e have k: "(exists_path x fp \<longrightarrow> exists_path x0 fp) \<and> (\<forall>q. r0 = Inr (Some q) \<longrightarrow> q = p)"
    by blast
  show "exists_path x fp \<Longrightarrow> exists_path x1 fp"
    using k r by (simp add: exists_path_def)
  show "r = Inr (Some q) \<Longrightarrow> q = p"
    using k r by simp
qed

lemma download_from_zip_keeps:
  assumes wb: "\<forall>u p ov x r x'. dl u p ov x = (r, x')
                 \<longrightarrow> (exists_path x fp \<longrightarrow> exists_path x' fp) \<and> (\<forall>q. r = Inr (Some q) \<longrightarrow> q = p)"
    and run: "download_from_zip dl rootdir refresh slug cp jp az x = Inr (oks, az', x')"
    and names: "slug_to_url_and_filename slug ''zip'' rootdir = Inr (zu, zp)"
    and ne: "zp \<noteq> fp"
    and ex: "exists_path x fp"
  shows "exists_path x' fp"
proof (cases "slug \<in> az \<and> \<not> refresh")
  case True
  with run names ex show ?thesis
    by (simp add: download_from_zip_def)
next
  case False
  obtain r x1 where d: "url_to_file_download dl zu zp refresh x = (r, x1)"
    by (cases "url_to_file_download dl zu zp refresh x")
  note k = download_keeps[OF wb d]
  show ?thesis
  proof (cases "\<exists>v. r = Inr v \<and> truthy v \<and> exists_path x1 (the v)")
    case no: False
    with run names False d have "x' = x1"
      by (cases r) (auto simp: download_from_zip_def Let_def split: if_splits)
    with k(1) ex show ?thesis by simp
  next
    case yes: True
    then obtain q where v: "r = Inr (Some q)" "q \<noteq> []" "exists_path x1 q"
      by (cases r; cases "projr r") auto
    obtain c0 j0 x2 where z: "extract_from_zip slug cp jp q x1 = ((c0, j0), x2)"
      by (cases "extract_from_zip slug cp jp q x1") auto
    from run names False d v z have "x' = x2"
      by (auto simp: download_from_zip_def Let_def)
    moreover have "q = zp"
      using k(2) v(1) by simp
    ultimately show ?thesis
      using extract_from_zip_frame(6)[OF z, of fp] ne k(1) ex by simp
  qed
qed

lemma csv_section_keeps:
  assumes wb: "\<forall>u p ov x r x'. dl u p ov x = (r, x')
                 \<longrightarrow> (exists_path x fp \<longrightarrow> exists_path x' fp) \<and> (\<forall>q. r = Inr (Some q) \<longrightarrow> q = p)"
    and run: "csv_section dl rootdir refresh slug cu cp jp az w = Inr (cf, jfz, az', w1)"
    and names: "slug_to_url_and_filename slug ''zip'' rootdir = Inr (zu, zp)"
    and ne: "zp \<noteq> fp"
    and ex: "exists_path w fp"
  shows "exists_path w1 fp"
proof (cases "exists_path w cp \<and> \<not> refresh")
  case True
  with run ex show ?thesis
    by (simp add: csv_section_def)
next
  case False
  obtain r wd where d: "url_to_file_download dl cu cp refresh w = (r, wd)"
    by (cases "url_to_file_download dl cu cp refresh w")
  note k = download_keeps(1)[OF wb d ex]
  show ?thesis
  proof (cases "\<exists>e. r = Inl e \<and> \<not> is_non_redistributable e \<and> is_forbidden_error e \<and> slug \<notin> az")
    case no: False
    with run False d have "w1 = wd"
      by (cases r) (auto simp: csv_section_def split: if_splits)
    with k show ?thesis by simp
  next
    case yes: True
    then obtain e where e: "r = Inl e" "\<not> is_non_redistributable e" "is_forbidden_error e"
        "slug \<notin> az"
      by blast
    obtain oks az0 w2 where z:
      "download_from_zip dl rootdir refresh slug cp jp az wd = Inr (oks, az0, w2)"
      using download_from_zip_returns[of dl rootdir refresh slug cp jp az wd] by auto
    from run False d e z have "w1 = w2"
      by (auto simp: csv_section_def split: prod.splits)
    with download_from_zip_keeps[OF wb z names ne k] show ?thesis by simp
  qed
qed

lemma json_section_cached:
  assumes "exists_path x jp" and "\<not> refresh"
  shows "json_section dl rootdir refresh slug ju cp jp jfz az x = Inr (Some jp, az, x)"
  using assms by (simp add: json_section_def)

lemma acquire_returns:
  "\<exists>jf cf w'. acquire_owid_data dl rootdir slug refresh w = Inr ((jf, cf), w')"
proof -
  have c: "\<exists>r. csv_section dl rootdir refresh slug cu cp jp az x = Inr r" for cu cp jp az x
    by (auto simp: csv_section_def split: prod.splits sum.splits)
  have j: "\<exists>r. json_section dl rootdir refresh slug ju cp jp jfz az x = Inr r"
    for ju cp jp jfz az x
    by (auto simp: json_section_def split: prod.splits sum.splits)
  show ?thesis
    unfolding acquire_owid_data_def names_json names_csv
    using c j by (auto split: sum.splits prod.splits) (metis Inl_Inr_False)+
qed

lemmas acquire_eval =
  acquire_owid_data_def csv_section_def json_section_def download_from_zip_def
  extract_from_zip_def extract_members_def unlink_quietly_def unlink_def extract_member_def
  ZipFile_def url_to_file_download_def slug_to_url_and_filename_def os_path_join_def
  startswith_def exists_path_def is_forbidden_error_def is_non_redistributable_def lower_def
  lower_char_def Let_def empty_world_def serve_archive_only_def refuse_all_def serve_all_def
  world_with_def char_of_eq_iff




text \<open>
  C2: in one call of \<open>acquire_owid_data\<close> the download capability is invoked for the
  archive URL at most once. This holds for every run, so in particular when the direct
  downloads of the data and of the metadata both raise an access-forbidden error: the
  second one finds the slug in \<open>attempted_zip\<close> and gives up.
\<close>

theorem archive_downloaded_at_most_once:
  assumes run: "acquire_owid_data dl rootdir slug refresh w = Inr ((jf, cf), w')"
    and nj: "slug_to_url_and_filename slug ''json'' rootdir = Inr (ju, jp)"
    and nc: "slug_to_url_and_filename slug ''csv'' rootdir = Inr (cu, cp)"
    and nz: "slug_to_url_and_filename slug ''zip'' rootdir = Inr (zu, zp)"
    and log: "calls w = []"
  shows "length (filter (\<lambda>c. call_url c = zu) (calls w')) \<le> 1"
proof -
  from acquire_sections[OF run nj nc] obtain jfz az az' w1 where
    c: "csv_section dl rootdir refresh slug cu cp jp {} w = Inr (cf, jfz, az, w1)"
    and j: "json_section dl rootdir refresh slug ju cp jp jfz az w1 = Inr (jf, az', w')"
    by blast
  note u = urls_distinct[OF nj nc nz]
  show ?thesis
    using csv_section_shape[OF c nz] json_section_shape[OF j nz] log u
    by (elim disjE exE conjE) simp_all
qed

theorem archive_downloaded_at_most_once_witness:
  "\<exists>jf cf w'.
      acquire_owid_data
        (serve_archive_only ''https://ourworldindata.org/grapher/restricted-x.zip''
           [(''restricted-x.csv'', Stored ''year,value'')])
        ''/d'' ''restricted-x'' False empty_world = Inr ((jf, cf), w')
    \<and> calls w' =
         [Call ''https://ourworldindata.org/grapher/restricted-x.csv''
            ''/d/restricted-x.csv'' False (Inl ''HTTP Error 403: Forbidden''),
          Call ''https://ourworldindata.org/grapher/restricted-x.zip''
            ''/d/restricted-x.zip'' False (Inr (Some ''/d/restricted-x.zip'')),
          Call ''https://ourworldindata.org/grapher/restricted-x.metadata.json''
            ''/d/restricted-x.metadata.json'' False (Inl ''HTTP Error 403: Forbidden'')]
    \<and> is_forbidden_error ''HTTP Error 403: Forbidden''
    \<and> length (filter (\<lambda>c. call_url c = ''https://ourworldindata.org/grapher/restricted-x.zip'')
                 (calls w')) \<le> 1"
proof -
  let ?dl = "serve_archive_only ''https://ourworldindata.org/grapher/restricted-x.zip''
               [(''restricted-x.csv'', Stored ''year,value'')]"
  have nj: "slug_to_url_and_filename ''restricted-x'' ''json'' ''/d''
              = Inr (''https://ourworldindata.org/grapher/restricted-x.metadata.json'',
                     ''/d/restricted-x.metadata.json'')"
    and nc: "slug_to_url_and_filename ''restricted-x'' ''csv'' ''/d''
              = Inr (''https://ourworldindata.org/grapher/restricted-x.csv'',
                     ''/d/restricted-x.csv'')"
    and nz: "slug_to_url_and_filename ''restricted-x'' ''zip'' ''/d''
              = Inr (''https://ourworldindata.org/grapher/restricted-x.zip'',
                     ''/d/restricted-x.zip'')"
    by (simp_all add: slug_to_url_and_filename_def os_path_join_def startswith_def)
  have log: "calls empty_world = []"
    by (simp add: empty_world_def)
  obtain jf cf w' where
    run: "acquire_owid_data ?dl ''/d'' ''restricted-x'' False empty_world = Inr ((jf, cf), w')"
    using acquire_returns by blast
  have "map_sum id (\<lambda>r. calls (snd r))
          (acquire_owid_data ?dl ''/d'' ''restricted-x'' False empty_world)
        = Inr [Call ''https://ourworldindata.org/grapher/restricted-x.csv''
            ''/d/restricted-x.csv'' False (Inl ''HTTP Error 403: Forbidden''),
          Call ''https://ourworldindata.org/grapher/restricted-x.zip''
            ''/d/restricted-x.zip'' False (Inr (Some ''/d/restricted-x.zip'')),
          Call ''https://ourworldindata.org/grapher/restricted-x.metadata.json''
            ''/d/restricted-x.metadata.json'' False (Inl ''HTTP Error 403: Forbidden'')]"
    by (simp add: acquire_eval)
  with run have cl: "calls w' =
         [Call ''https://ourworldindata.org/grapher/restricted-x.csv''
            ''/d/restricted-x.csv'' False (Inl ''HTTP Error 403: Forbidden''),
          Call ''https://ourworldindata.org/grapher/restricted-x.zip''
            ''/d/restricted-x.zip'' False (Inr (Some ''/d/restricted-x.zip'')),
          Call ''https://ourworldindata.org/grapher/restricted-x.metadata.json''
            ''/d/restricted-x.metadata.json'' False (Inl ''HTTP Error 403: Forbidden'')]"
    by simp
  have f: "is_forbidden_error ''HTTP Error 403: Forbidden''"
    by (simp add: is_forbidden_error_def startswith_def)
  from archive_downloaded_at_most_once[OF run nj nc nz log] run cl f show ?thesis
    by blast
qed

text \<open>
  C5: when the direct download of the data artifact raises an error whose lowercased
  message contains \<open>non-redistributable\<close> or \<open>not allowed to re-share\<close>, the data
  component of the result is absent, that download is the first call of the run, and
  the call after it, if there is one, is the direct download of the metadata, so not
  the archive download. When the direct download of the metadata raises such an error,
  the metadata component is absent and that download is the last call of the run: no
  archive download follows it.
\<close>

theorem non_redistributable_gives_up:
  assumes run: "acquire_owid_data dl rootdir slug refresh w = Inr ((jf, cf), w')"
    and nj: "slug_to_url_and_filename slug ''json'' rootdir = Inr (ju, jp)"
    and nc: "slug_to_url_and_filename slug ''csv'' rootdir = Inr (cu, cp)"
    and nz: "slug_to_url_and_filename slug ''zip'' rootdir = Inr (zu, zp)"
    and log: "calls w = []"
  shows "(\<forall>e. Call cu cp refresh (Inl e) \<in> set (calls w') \<and> is_non_redistributable e
            \<longrightarrow> cf = None \<and> hd (calls w') = Call cu cp refresh (Inl e)
              \<and> (tl (calls w') = [] \<or> call_url (hd (tl (calls w'))) = ju))
       \<and> (\<forall>e. Call ju jp refresh (Inl e) \<in> set (calls w') \<and> is_non_redistributable e
            \<longrightarrow> jf = None \<and> last (calls w') = Call ju jp refresh (Inl e))
       \<and> ju \<noteq> zu"
proof -
  from acquire_sections[OF run nj nc] obtain jfz az az' w1 where
    c: "csv_section dl rootdir refresh slug cu cp jp {} w = Inr (cf, jfz, az, w1)"
    and j: "json_section dl rootdir refresh slug ju cp jp jfz az w1 = Inr (jf, az', w')"
    by blast
  note u = urls_distinct[OF nj nc nz]
  have a: "\<forall>e. Call cu cp refresh (Inl e) \<in> set (calls w') \<and> is_non_redistributable e
            \<longrightarrow> cf = None \<and> hd (calls w') = Call cu cp refresh (Inl e)
              \<and> (tl (calls w') = [] \<or> call_url (hd (tl (calls w'))) = ju)"
    using csv_section_shape[OF c nz] json_section_shape[OF j nz] log u
    by (elim disjE exE conjE) auto
  have b: "\<forall>e. Call ju jp refresh (Inl e) \<in> set (calls w') \<and> is_non_redistributable e
            \<longrightarrow> jf = None \<and> last (calls w') = Call ju jp refresh (Inl e)"
    using csv_section_shape[OF c nz] json_section_shape[OF j nz] log u
    by (elim disjE exE conjE) auto
  from a b u show ?thesis by blast
qed

theorem non_redistributable_gives_up_witness:
  "\<exists>jf cf w'.
      acquire_owid_data (refuse_all ''HTTP Error 403: Forbidden (Non-Redistributable data)'')
         ''/d'' ''blocked-y'' False empty_world = Inr ((jf, cf), w')
    \<and> is_non_redistributable ''HTTP Error 403: Forbidden (Non-Redistributable data)''
    \<and> is_forbidden_error ''HTTP Error 403: Forbidden (Non-Redistributable data)''
    \<and> jf = None \<and> cf = None
    \<and> calls w' =
         [Call ''https://ourworldindata.org/grapher/blocked-y.csv'' ''/d/blocked-y.csv'' False
            (Inl ''HTTP Error 403: Forbidden (Non-Redistributable data)''),
          Call ''https://ourworldindata.org/grapher/blocked-y.metadata.json''
            ''/d/blocked-y.metadata.json'' False
            (Inl ''HTTP Error 403: Forbidden (Non-Redistributable data)'')]"
proof -
  let ?m = "''HTTP Error 403: Forbidden (Non-Redistributable data)''"
  let ?dl = "refuse_all ?m"
  have nj: "slug_to_url_and_filename ''blocked-y'' ''json'' ''/d''
              = Inr (''https://ourworldindata.org/grapher/blocked-y.metadata.json'',
                     ''/d/blocked-y.metadata.json'')"
    and nc: "slug_to_url_and_filename ''blocked-y'' ''csv'' ''/d''
              = Inr (''https://ourworldindata.org/grapher/blocked-y.csv'',
                     ''/d/blocked-y.csv'')"
    and nz: "slug_to_url_and_filename ''blocked-y'' ''zip'' ''/d''
              = Inr (''https://ourworldindata.org/grapher/blocked-y.zip'',
                     ''/d/blocked-y.zip'')"
    by (simp_all add: slug_to_url_and_filename_def os_path_join_def startswith_def)
  have log: "calls empty_world = []"
    by (simp add: empty_world_def)
  obtain jf cf w' where
    run: "acquire_owid_data ?dl ''/d'' ''blocked-y'' False empty_world = Inr ((jf, cf), w')"
    using acquire_returns by blast
  have "map_sum id (\<lambda>r. calls (snd r))
          (acquire_owid_data ?dl ''/d'' ''blocked-y'' False empty_world)
        = Inr [Call ''https://ourworldindata.org/grapher/blocked-y.csv'' ''/d/blocked-y.csv''
                 False (Inl ?m),
               Call ''https://ourworldindata.org/grapher/blocked-y.metadata.json''
                 ''/d/blocked-y.metadata.json'' False (Inl ?m)]"
    by (simp add: acquire_eval)
  with run have cl: "calls w' =
         [Call ''https://ourworldindata.org/grapher/blocked-y.csv'' ''/d/blocked-y.csv'' False
            (Inl ?m),
          Call ''https://ourworldindata.org/grapher/blocked-y.metadata.json''
            ''/d/blocked-y.metadata.json'' False (Inl ?m)]"
    by simp
  have n: "is_non_redistributable ?m"
    by (simp add: is_non_redistributable_def lower_def lower_char_def startswith_def
        char_of_eq_iff)
  have f: "is_forbidden_error ?m"
    by (simp add: is_forbidden_error_def startswith_def)
  note t = non_redistributable_gives_up[OF run nj nc nz log]
  from t cl n have "cf = None" and "jf = None"
    by auto
  with run cl n f show ?thesis
    by blast
qed

text \<open>
  C6. Data: when the CSV cache path exists at the start of the call and \<open>refresh\<close> is
  false, the data component is that path and no call of the run has the CSV URL.
  Metadata: whenever the JSON cache path exists where the metadata part starts and
  \<open>refresh\<close> is false, that part returns the path and leaves the world, and so the log
  of calls, as it found it. From the start of the call: when the JSON cache path
  exists then, \<open>refresh\<close> is false, and the download capability removes no such file and
  returns only the path it was given, the metadata component is that path and no call
  of the run has the JSON URL.
\<close>

theorem cache_hit_skips_download:
  assumes run: "acquire_owid_data dl rootdir slug refresh w = Inr ((jf, cf), w')"
    and nj: "slug_to_url_and_filename slug ''json'' rootdir = Inr (ju, jp)"
    and nc: "slug_to_url_and_filename slug ''csv'' rootdir = Inr (cu, cp)"
    and nz: "slug_to_url_and_filename slug ''zip'' rootdir = Inr (zu, zp)"
    and log: "calls w = []"
  shows "(exists_path w cp \<and> \<not> refresh
            \<longrightarrow> cf = Some cp \<and> (\<forall>c\<in>set (calls w'). call_url c \<noteq> cu))
       \<and> (\<forall>jfz az x. exists_path x jp \<and> \<not> refresh
            \<longrightarrow> json_section dl rootdir refresh slug ju cp jp jfz az x = Inr (Some jp, az, x))
       \<and> (exists_path w jp \<and> \<not> refresh
          \<and> (\<forall>u p ov x r x'. dl u p ov x = (r, x')
                 \<longrightarrow> (exists_path x jp \<longrightarrow> exists_path x' jp)
                   \<and> (\<forall>q. r = Inr (Some q) \<longrightarrow> q = p))
            \<longrightarrow> jf = Some jp \<and> (\<forall>c\<in>set (calls w'). call_url c \<noteq> ju))"
proof -
  from acquire_sections[OF run nj nc] obtain jfz az az' w1 where
    c: "csv_section dl rootdir refresh slug cu cp jp {} w = Inr (cf, jfz, az, w1)"
    and j: "json_section dl rootdir refresh slug ju cp jp jfz az w1 = Inr (jf, az', w')"
    by blast
  note u = urls_distinct[OF nj nc nz]
  have a: "exists_path w cp \<and> \<not> refresh
            \<longrightarrow> cf = Some cp \<and> (\<forall>c\<in>set (calls w'). call_url c \<noteq> cu)"
    using csv_section_shape[OF c nz] json_section_shape[OF j nz] log u
    by (elim disjE exE conjE) auto
  have b: "\<forall>jfz az x. exists_path x jp \<and> \<not> refresh
            \<longrightarrow> json_section dl rootdir refresh slug ju cp jp jfz az x = Inr (Some jp, az, x)"
    by (simp add: json_section_cached)
  have d: "exists_path w jp \<and> \<not> refresh
          \<and> (\<forall>u p ov x r x'. dl u p ov x = (r, x')
                 \<longrightarrow> (exists_path x jp \<longrightarrow> exists_path x' jp)
                   \<and> (\<forall>q. r = Inr (Some q) \<longrightarrow> q = p))
            \<longrightarrow> jf = Some jp \<and> (\<forall>c\<in>set (calls w'). call_url c \<noteq> ju)"
  proof
    assume h: "exists_path w jp \<and> \<not> refresh
          \<and> (\<forall>u p ov x r x'. dl u p ov x = (r, x')
                 \<longrightarrow> (exists_path x jp \<longrightarrow> exists_path x' jp)
                   \<and> (\<forall>q. r = Inr (Some q) \<longrightarrow> q = p))"
    then have wb: "\<forall>u p ov x r x'. dl u p ov x = (r, x')
                 \<longrightarrow> (exists_path x jp \<longrightarrow> exists_path x' jp)
                   \<and> (\<forall>q. r = Inr (Some q) \<longrightarrow> q = p)"
      by blast
    have k: "exists_path w1 jp"
      using csv_section_keeps[OF wb c nz paths_distinct(1)[OF nj nc nz]] h by blast
    with j h have r: "jf = Some jp" "w' = w1"
      by (simp_all add: json_section_cached)
    show "jf = Some jp \<and> (\<forall>c\<in>set (calls w'). call_url c \<noteq> ju)"
      using csv_section_shape[OF c nz] r log u
      by (elim disjE exE conjE) auto
  qed
  from a b d show ?thesis by blast
qed

theorem cache_hit_skips_download_witness:
  "(\<exists>jf cf w'.
      acquire_owid_data serve_all ''/d'' ''life-expectancy'' False
         (world_with [(''/d/life-expectancy.csv'', Plain ''year,value'')] {})
        = Inr ((jf, cf), w')
    \<and> exists_path (world_with [(''/d/life-expectancy.csv'', Plain ''year,value'')] {})
          ''/d/life-expectancy.csv''
    \<and> cf = Some ''/d/life-expectancy.csv''
    \<and> ''https://ourworldindata.org/grapher/life-expectancy.csv'' \<notin> call_url ` set (calls w'))
   \<and> (\<exists>jf cf w'.
      acquire_owid_data serve_all ''/d'' ''life-expectancy'' False
         (world_with [(''/d/life-expectancy.metadata.json'', Plain ''{}'')] {})
        = Inr ((jf, cf), w')
    \<and> exists_path (world_with [(''/d/life-expectancy.metadata.json'', Plain ''{}'')] {})
          ''/d/life-expectancy.metadata.json''
    \<and> jf = Some ''/d/life-expectancy.metadata.json''
    \<and> ''https://ourworldindata.org/grapher/life-expectancy.metadata.json''
          \<notin> call_url ` set (calls w')
    \<and> calls w' =
         [Call ''https://ourworldindata.org/grapher/life-expectancy.csv''
            ''/d/life-expectancy.csv'' False (Inr (Some ''/d/life-expectancy.csv''))])"
proof -
  let ?wc = "world_with [(''/d/life-expectancy.csv'', Plain ''year,value'')] {}"
  let ?wj = "world_with [(''/d/life-expectancy.metadata.json'', Plain ''{}'')] {}"
  have nj: "slug_to_url_and_filename ''life-expectancy'' ''json'' ''/d''
              = Inr (''https://ourworldindata.org/grapher/life-expectancy.metadata.json'',
                     ''/d/life-expectancy.metadata.json'')"
    and nc: "slug_to_url_and_filename ''life-expectancy'' ''csv'' ''/d''
              = Inr (''https://ourworldindata.org/grapher/life-expectancy.csv'',
                     ''/d/life-expectancy.csv'')"
    and nz: "slug_to_url_and_filename ''life-expectancy'' ''zip'' ''/d''
              = Inr (''https://ourworldindata.org/grapher/life-expectancy.zip'',
                     ''/d/life-expectancy.zip'')"
    by (simp_all add: slug_to_url_and_filename_def os_path_join_def startswith_def)
  have logc: "calls ?wc = []" and logj: "calls ?wj = []"
    by (simp_all add: world_with_def empty_world_def)
  have exc: "exists_path ?wc ''/d/life-expectancy.csv''"
    and exj: "exists_path ?wj ''/d/life-expectancy.metadata.json''"
    by (simp_all add: world_with_def empty_world_def exists_path_def)
  have wb: "\<forall>u p ov x r x'. serve_all u p ov x = (r, x')
              \<longrightarrow> (exists_path x ''/d/life-expectancy.metadata.json''
                    \<longrightarrow> exists_path x' ''/d/life-expectancy.metadata.json'')
                \<and> (\<forall>q. r = Inr (Some q) \<longrightarrow> q = p)"
    by (auto simp: serve_all_def exists_path_def)
  obtain jf1 cf1 w1 where
    run1: "acquire_owid_data serve_all ''/d'' ''life-expectancy'' False ?wc
             = Inr ((jf1, cf1), w1)"
    using acquire_returns by blast
  obtain jf2 cf2 w2 where
    run2: "acquire_owid_data serve_all ''/d'' ''life-expectancy'' False ?wj
             = Inr ((jf2, cf2), w2)"
    using acquire_returns by blast
  note t1 = cache_hit_skips_download[OF run1 nj nc nz logc]
  note t2 = cache_hit_skips_download[OF run2 nj nc nz logj]
  from t1 exc have r1: "cf1 = Some ''/d/life-expectancy.csv''"
      "''https://ourworldindata.org/grapher/life-expectancy.csv'' \<notin> call_url ` set (calls w1)"
    by auto
  from t2 exj wb have r2: "jf2 = Some ''/d/life-expectancy.metadata.json''"
      "''https://ourworldindata.org/grapher/life-expectancy.metadata.json''
          \<notin> call_url ` set (calls w2)"
    by auto
  have "map_sum id (\<lambda>r. calls (snd r))
          (acquire_owid_data serve_all ''/d'' ''life-expectancy'' False ?wj)
        = Inr [Call ''https://ourworldindata.org/grapher/life-expectancy.csv''
            ''/d/life-expectancy.csv'' False (Inr (Some ''/d/life-expectancy.csv''))]"
    by (simp add: acquire_eval)
  with run2 have cl: "calls w2 =
         [Call ''https://ourworldindata.org/grapher/life-expectancy.csv''
            ''/d/life-expectancy.csv'' False (Inr (Some ''/d/life-expectancy.csv''))]"
    by simp
  from run1 exc r1 run2 exj r2 cl show ?thesis
    by blast
qed

text \<open>
  C8: when \<open>_download_from_zip\<close> is not skipped and the download capability returns,
  for the archive, a non-empty path \<open>p\<close> that exists (with \<open>return_filepath\<close> the
  temporary path it was given), so that the extraction phase runs, then \<open>_download_from_zip\<close> returns (it raises nothing, whatever the archive
  holds and whichever extraction fails) and marks the slug as attempted, and in the
  world it leaves the file \<open>p\<close> does not exist any more; the one exception is a file
  that \<open>unlink\<close> cannot delete, whose failure is swallowed and which stays.
\<close>

theorem temporary_zip_removed:
  assumes nz: "slug_to_url_and_filename slug ''zip'' rootdir = Inr (zu, zp)"
    and fresh: "slug \<notin> az \<or> refresh"
    and d: "fst (url_to_file_download dl zu zp refresh w) = Inr (Some p)"
    and t: "p \<noteq> []"
    and ex: "exists_path (snd (url_to_file_download dl zu zp refresh w)) p"
  shows "\<exists>oks w'. download_from_zip dl rootdir refresh slug cp jp az w
                     = Inr (oks, insert slug az, w')
           \<and> (exists_path w' p \<longrightarrow> p \<in> undeletable w')"
proof -
  obtain w1 where d1: "url_to_file_download dl zu zp refresh w = (Inr (Some p), w1)"
    using d by (cases "url_to_file_download dl zu zp refresh w") simp
  with ex have ex1: "exists_path w1 p"
    by simp
  obtain c0 j0 w2 where z: "extract_from_zip slug cp jp p w1 = ((c0, j0), w2)"
    by (cases "extract_from_zip slug cp jp p w1") auto
  have "download_from_zip dl rootdir refresh slug cp jp az w
          = Inr ((c0, j0), insert slug az, w2)"
    using nz fresh d1 t ex1 z by (auto simp: download_from_zip_def Let_def)
  then show ?thesis
    using extract_from_zip_frame(2,5)[OF z] by auto
qed

theorem temporary_zip_removed_witness:
  "(\<exists>oks w'.
      download_from_zip
        (serve_archive_only ''https://ourworldindata.org/grapher/restricted-x.zip''
           [(''restricted-x.csv'', Stored ''year,value''),
            (''restricted-x.metadata.json'', Stored ''{}'')])
        ''/d'' False ''restricted-x'' ''/d/restricted-x.csv'' ''/d/restricted-x.metadata.json''
        {} empty_world
        = Inr (oks, {''restricted-x''}, w')
    \<and> oks = (Some ''/d/restricted-x.csv'', Some ''/d/restricted-x.metadata.json'')
    \<and> \<not> exists_path w' ''/d/restricted-x.zip'')
   \<and> (\<exists>oks w'.
      download_from_zip
        (serve_archive_only ''https://ourworldindata.org/grapher/restricted-x.zip''
           [(''restricted-x.csv'', Damaged)])
        ''/d'' False ''restricted-x'' ''/d/restricted-x.csv'' ''/d/restricted-x.metadata.json''
        {} empty_world
        = Inr (oks, {''restricted-x''}, w')
    \<and> oks = (None, None)
    \<and> \<not> exists_path w' ''/d/restricted-x.zip'')
   \<and> (\<exists>oks w'.
      download_from_zip serve_all
        ''/d'' False ''restricted-x'' ''/d/restricted-x.csv'' ''/d/restricted-x.metadata.json''
        {} empty_world
        = Inr (oks, {''restricted-x''}, w')
    \<and> oks = (None, None)
    \<and> \<not> exists_path w' ''/d/restricted-x.zip'')
   \<and> (\<exists>oks w'.
      download_from_zip serve_all
        ''/d'' False ''restricted-x'' ''/d/restricted-x.csv'' ''/d/restricted-x.metadata.json''
        {} (world_with [] {''/d/restricted-x.zip''})
        = Inr (oks, {''restricted-x''}, w')
    \<and> exists_path w' ''/d/restricted-x.zip''
    \<and> ''/d/restricted-x.zip'' \<in> undeletable w')"
proof -
  let ?zu = "''https://ourworldindata.org/grapher/restricted-x.zip''"
  let ?zp = "''/d/restricted-x.zip''"
  let ?cp = "''/d/restricted-x.csv''"
  let ?jp = "''/d/restricted-x.metadata.json''"
  let ?d1 = "serve_archive_only ?zu
               [(''restricted-x.csv'', Stored ''year,value''),
                (''restricted-x.metadata.json'', Stored ''{}'')]"
  let ?d2 = "serve_archive_only ?zu [(''restricted-x.csv'', Damaged)]"
  let ?wl = "world_with [] {?zp}"
  have nz: "slug_to_url_and_filename ''restricted-x'' ''zip'' ''/d'' = Inr (?zu, ?zp)"
    by (simp add: slug_to_url_and_filename_def os_path_join_def startswith_def)
  have fresh: "''restricted-x'' \<notin> {} \<or> False"
    by simp
  have t: "?zp \<noteq> []"
    by simp
  have a1: "fst (url_to_file_download ?d1 ?zu ?zp False empty_world) = Inr (Some ?zp)"
    and b1: "exists_path (snd (url_to_file_download ?d1 ?zu ?zp False empty_world)) ?zp"
    and a2: "fst (url_to_file_download ?d2 ?zu ?zp False empty_world) = Inr (Some ?zp)"
    and b2: "exists_path (snd (url_to_file_download ?d2 ?zu ?zp False empty_world)) ?zp"
    and a3: "fst (url_to_file_download serve_all ?zu ?zp False empty_world) = Inr (Some ?zp)"
    and b3: "exists_path (snd (url_to_file_download serve_all ?zu ?zp False empty_world)) ?zp"
    and a4: "fst (url_to_file_download serve_all ?zu ?zp False ?wl) = Inr (Some ?zp)"
    and b4: "exists_path (snd (url_to_file_download serve_all ?zu ?zp False ?wl)) ?zp"
    by (simp_all add: url_to_file_download_def serve_archive_only_def serve_all_def
        exists_path_def empty_world_def world_with_def)
  from temporary_zip_removed[OF nz fresh a1 t b1, of ?cp ?jp]
  obtain o1 w1 where
    r1: "download_from_zip ?d1 ''/d'' False ''restricted-x'' ?cp ?jp {} empty_world
           = Inr (o1, {''restricted-x''}, w1)"
    and k1: "exists_path w1 ?zp \<longrightarrow> ?zp \<in> undeletable w1"
    by blast
  from temporary_zip_removed[OF nz fresh a2 t b2, of ?cp ?jp]
  obtain o2 w2 where
    r2: "download_from_zip ?d2 ''/d'' False ''restricted-x'' ?cp ?jp {} empty_world
           = Inr (o2, {''restricted-x''}, w2)"
    and k2: "exists_path w2 ?zp \<longrightarrow> ?zp \<in> undeletable w2"
    by blast
  from temporary_zip_removed[OF nz fresh a3 t b3, of ?cp ?jp]
  obtain o3 w3 where
    r3: "download_from_zip serve_all ''/d'' False ''restricted-x'' ?cp ?jp {} empty_world
           = Inr (o3, {''restricted-x''}, w3)"
    and k3: "exists_path w3 ?zp \<longrightarrow> ?zp \<in> undeletable w3"
    by blast
  from temporary_zip_removed[OF nz fresh a4 t b4, of ?cp ?jp]
  obtain o4 w4 where
    r4: "download_from_zip serve_all ''/d'' False ''restricted-x'' ?cp ?jp {} ?wl
           = Inr (o4, {''restricted-x''}, w4)"
    and k4: "exists_path w4 ?zp \<longrightarrow> ?zp \<in> undeletable w4"
    by blast
  have e1: "map_sum id (\<lambda>r. (fst r, undeletable (snd (snd r))))
              (download_from_zip ?d1 ''/d'' False ''restricted-x'' ?cp ?jp {} empty_world)
            = Inr ((Some ?cp, Some ?jp), {})"
    by (simp add: acquire_eval)
  have e2: "map_sum id (\<lambda>r. (fst r, undeletable (snd (snd r))))
              (download_from_zip ?d2 ''/d'' False ''restricted-x'' ?cp ?jp {} empty_world)
            = Inr ((None, None), {})"
    by (simp add: acquire_eval)
  have e3: "map_sum id (\<lambda>r. (fst r, undeletable (snd (snd r))))
              (download_from_zip serve_all ''/d'' False ''restricted-x'' ?cp ?jp {} empty_world)
            = Inr ((None, None), {})"
    by (simp add: acquire_eval)
  have e4: "map_sum id (\<lambda>r. exists_path (snd (snd r)) ?zp)
              (download_from_zip serve_all ''/d'' False ''restricted-x'' ?cp ?jp {} ?wl)
            = Inr True"
    by (simp add: acquire_eval)
  from r1 e1 k1 have c1: "o1 = (Some ?cp, Some ?jp)" "\<not> exists_path w1 ?zp"
    by auto
  from r2 e2 k2 have c2: "o2 = (None, None)" "\<not> exists_path w2 ?zp"
    by auto
  from r3 e3 k3 have c3: "o3 = (None, None)" "\<not> exists_path w3 ?zp"
    by auto
  from r4 e4 k4 have c4: "exists_path w4 ?zp" "?zp \<in> undeletable w4"
    by auto
  from r1 c1 r2 c2 r3 c3 r4 c4 show ?thesis
    by blast
qed

text \<open>
  C9, as the code has it. Nothing records between calls that an artifact was
  classified non-redistributable. After a call in which the direct download of an
  artifact raised a non-redistributable error, a second call with the same slug and
  \<open>refresh\<close> false, on the world the first call left, invokes the direct download of the
  data artifact again, as its first call, whenever the CSV cache path does not exist;
  and whenever the second call returns an artifact absent, it has invoked the direct
  download of that artifact.
\<close>

theorem second_call_retries:
  assumes nj: "slug_to_url_and_filename slug ''json'' rootdir = Inr (ju, jp)"
    and nc: "slug_to_url_and_filename slug ''csv'' rootdir = Inr (cu, cp)"
    and nz: "slug_to_url_and_filename slug ''zip'' rootdir = Inr (zu, zp)"
    and log: "calls w = []"
    and first: "acquire_owid_data dl rootdir slug False w = Inr ((jf1, cf1), w1)"
    and second: "acquire_owid_data dl rootdir slug False (w1\<lparr>calls := []\<rparr>)
                   = Inr ((jf2, cf2), w2)"
  shows "(\<forall>e. Call cu cp False (Inl e) \<in> set (calls w1) \<and> is_non_redistributable e
              \<and> \<not> exists_path w1 cp
            \<longrightarrow> (\<exists>r. calls w2 \<noteq> [] \<and> hd (calls w2) = Call cu cp False r))
       \<and> (\<forall>e. Call cu cp False (Inl e) \<in> set (calls w1) \<and> is_non_redistributable e
              \<and> cf2 = None
            \<longrightarrow> (\<exists>r. Call cu cp False r \<in> set (calls w2)))
       \<and> (\<forall>e. Call ju jp False (Inl e) \<in> set (calls w1) \<and> is_non_redistributable e
              \<and> jf2 = None
            \<longrightarrow> (\<exists>r. Call ju jp False r \<in> set (calls w2)))"
proof -
  from acquire_sections[OF second nj nc] obtain jfz az az' wm where
    c: "csv_section dl rootdir False slug cu cp jp {} (w1\<lparr>calls := []\<rparr>)
          = Inr (cf2, jfz, az, wm)"
    and j: "json_section dl rootdir False slug ju cp jp jfz az wm = Inr (jf2, az', w2)"
    by blast
  have e: "exists_path (w1\<lparr>calls := []\<rparr>) cp = exists_path w1 cp"
    by (simp add: exists_path_def)
  have l: "calls (w1\<lparr>calls := []\<rparr>) = []"
    by simp
  have a: "\<not> exists_path w1 cp
             \<longrightarrow> (\<exists>r. calls w2 \<noteq> [] \<and> hd (calls w2) = Call cu cp False r)"
    using csv_section_shape[OF c nz] json_section_shape[OF j nz] e l
    by (elim disjE exE conjE) auto
  have b: "cf2 = None \<longrightarrow> (\<exists>r. Call cu cp False r \<in> set (calls w2))"
    using csv_section_shape[OF c nz] json_section_shape[OF j nz] e l
    by (elim disjE exE conjE) auto
  have d: "jf2 = None \<longrightarrow> (\<exists>r. Call ju jp False r \<in> set (calls w2))"
    using csv_section_shape[OF c nz] json_section_shape[OF j nz] e l
    by (elim disjE exE conjE) auto
  from a b d show ?thesis by blast
qed

theorem second_call_retries_witness:
  "\<exists>jf2 cf2 w2.
      acquire_owid_data (refuse_all ''This chart is non-redistributable'') ''/d'' ''blocked-y''
        False
        (empty_world\<lparr>calls :=
              [Call ''https://ourworldindata.org/grapher/blocked-y.csv'' ''/d/blocked-y.csv''
                 False (Inl ''This chart is non-redistributable''),
               Call ''https://ourworldindata.org/grapher/blocked-y.metadata.json''
                 ''/d/blocked-y.metadata.json'' False
                 (Inl ''This chart is non-redistributable'')]\<rparr>\<lparr>calls := []\<rparr>)
        = Inr ((jf2, cf2), w2)
    \<and> is_non_redistributable ''This chart is non-redistributable''
    \<and> calls w2 \<noteq> []
    \<and> call_url (hd (calls w2)) = ''https://ourworldindata.org/grapher/blocked-y.csv''"
proof -
  let ?m = "''This chart is non-redistributable''"
  let ?dl = "refuse_all ?m"
  let ?w1 = "empty_world\<lparr>calls :=
              [Call ''https://ourworldindata.org/grapher/blocked-y.csv'' ''/d/blocked-y.csv''
                 False (Inl ?m),
               Call ''https://ourworldindata.org/grapher/blocked-y.metadata.json''
                 ''/d/blocked-y.metadata.json'' False (Inl ?m)]\<rparr>"
  have nj: "slug_to_url_and_filename ''blocked-y'' ''json'' ''/d''
              = Inr (''https://ourworldindata.org/grapher/blocked-y.metadata.json'',
                     ''/d/blocked-y.metadata.json'')"
    and nc: "slug_to_url_and_filename ''blocked-y'' ''csv'' ''/d''
              = Inr (''https://ourworldindata.org/grapher/blocked-y.csv'',
                     ''/d/blocked-y.csv'')"
    and nz: "slug_to_url_and_filename ''blocked-y'' ''zip'' ''/d''
              = Inr (''https://ourworldindata.org/grapher/blocked-y.zip'',
                     ''/d/blocked-y.zip'')"
    by (simp_all add: slug_to_url_and_filename_def os_path_join_def startswith_def)
  have log: "calls empty_world = []"
    by (simp add: empty_world_def)
  have first: "acquire_owid_data ?dl ''/d'' ''blocked-y'' False empty_world
                 = Inr ((None, None), ?w1)"
    by (simp add: acquire_eval)
  obtain jf2 cf2 w2 where
    second: "acquire_owid_data ?dl ''/d'' ''blocked-y'' False (?w1\<lparr>calls := []\<rparr>)
               = Inr ((jf2, cf2), w2)"
    using acquire_returns by blast
  have n: "is_non_redistributable ?m"
    by (simp add: is_non_redistributable_def lower_def lower_char_def startswith_def
        char_of_eq_iff)
  have m: "Call ''https://ourworldindata.org/grapher/blocked-y.csv'' ''/d/blocked-y.csv''
             False (Inl ?m) \<in> set (calls ?w1)"
    by simp
  have ne: "\<not> exists_path ?w1 ''/d/blocked-y.csv''"
    by (simp add: exists_path_def empty_world_def)
  note t = second_call_retries[OF nj nc nz log first second]
  from t m n ne obtain r where
    "calls w2 \<noteq> []" "hd (calls w2) = Call ''https://ourworldindata.org/grapher/blocked-y.csv''
                                       ''/d/blocked-y.csv'' False r"
    by blast
  with second n show ?thesis
    by auto
qed

text \<open>
  C9 as stated fails: the first call classifies both artifacts non-redistributable and
  leaves the file system as it was; the second call, with \<open>refresh\<close> false, invokes the
  direct download of both again.
\<close>

theorem second_call_retries_counterexample:
  "acquire_owid_data (refuse_all ''This chart is non-redistributable'') ''/d'' ''blocked-y''
      False empty_world
     = Inr ((None, None),
            empty_world\<lparr>calls :=
              [Call ''https://ourworldindata.org/grapher/blocked-y.csv'' ''/d/blocked-y.csv''
                 False (Inl ''This chart is non-redistributable''),
               Call ''https://ourworldindata.org/grapher/blocked-y.metadata.json''
                 ''/d/blocked-y.metadata.json'' False
                 (Inl ''This chart is non-redistributable'')]\<rparr>)
   \<and> is_non_redistributable ''This chart is non-redistributable''
   \<and> acquire_owid_data (refuse_all ''This chart is non-redistributable'') ''/d'' ''blocked-y''
      False
      (empty_world\<lparr>calls :=
              [Call ''https://ourworldindata.org/grapher/blocked-y.csv'' ''/d/blocked-y.csv''
                 False (Inl ''This chart is non-redistributable''),
               Call ''https://ourworldindata.org/grapher/blocked-y.metadata.json''
                 ''/d/blocked-y.metadata.json'' False
                 (Inl ''This chart is non-redistributable'')]\<rparr>\<lparr>calls := []\<rparr>)
     = Inr ((None, None),
            empty_world\<lparr>calls :=
              [Call ''https://ourworldindata.org/grapher/blocked-y.csv'' ''/d/blocked-y.csv''
                 False (Inl ''This chart is non-redistributable''),
               Call ''https://ourworldindata.org/grapher/blocked-y.metadata.json''
                 ''/d/blocked-y.metadata.json'' False
                 (Inl ''This chart is non-redistributable'')]\<rparr>)"
  by (simp add: acquire_eval)


end
